theory Spec2Isabelle
  imports Main "HOL-Library.Word"
begin

unbundle bit_operations_syntax

section \<open>JavaScript values used by the backend\<close>

text \<open>
  A thrown JavaScript error is a value with a \<open>name\<close> and a \<open>message\<close>.
  \<open>new Error(m)\<close> has the name \<open>Error\<close>; the errors of the jsonwebtoken package carry
  the names \<open>TokenExpiredError\<close>, \<open>JsonWebTokenError\<close> and \<open>NotBeforeError\<close>.
  A function that may throw returns \<open>js_error + 'a\<close>, with \<open>Inl\<close> for the throw.
  Strings are \<open>string\<close>; a falsy string argument (\<open>!text\<close>) is the empty string.
  Time stamps are milliseconds since the epoch, as \<open>Date.now()\<close> returns them.
\<close>

datatype js_error = JsError (name: string) (message: string)

abbreviation Error :: "string \<Rightarrow> js_error" where
  "Error m \<equiv> JsError ''Error'' m"

type_synonym byte = "8 word"

section \<open>utils/encryption.js\<close>

subsection \<open>Hex encoding of buffers and \<open>String.prototype.split\<close>\<close>

text \<open>
  \<open>buf.toString('hex')\<close> writes two lower-case hex digits per byte.
  \<open>Buffer.from(s, 'hex')\<close> reads pairs of hex digits of either case and stops at the
  first pair that is not hex; a trailing single character is dropped.
\<close>

definition hex_digit :: "nat \<Rightarrow> char" where
  "hex_digit n = ''0123456789abcdef'' ! n"

definition hex_byte :: "byte \<Rightarrow> string" where
  "hex_byte b = [hex_digit (unat b div 16), hex_digit (unat b mod 16)]"

definition toHex :: "byte list \<Rightarrow> string" where
  "toHex bs = concat (map hex_byte bs)"

definition hex_val :: "char \<Rightarrow> nat option" where
  "hex_val c =
     (let n = (of_char c :: nat) in
      if 48 \<le> n \<and> n \<le> 57 then Some (n - 48)
      else if 97 \<le> n \<and> n \<le> 102 then Some (n - 87)
      else if 65 \<le> n \<and> n \<le> 70 then Some (n - 55)
      else None)"

fun fromHex :: "string \<Rightarrow> byte list" where
  "fromHex (c1 # c2 # cs) =
     (case (hex_val c1, hex_val c2) of
        (Some h, Some l) \<Rightarrow> of_nat (16 * h + l) # fromHex cs
      | _ \<Rightarrow> [])"
| "fromHex _ = []"

text \<open>\<open>s.split(sep)\<close> for a one-character separator; \<open>''.split(':')\<close> is \<open>['']\<close>.\<close>

fun split :: "char \<Rightarrow> string \<Rightarrow> string list" where
  "split sep [] = [[]]"
| "split sep (c # cs) =
     (if c = sep then [] # split sep cs
      else (case split sep cs of [] \<Rightarrow> [[c]] | p # ps \<Rightarrow> (c # p) # ps))"

subsection \<open>The cipher of Node's crypto module\<close>

text \<open>
  AES-256-CBC itself is code of Node's \<open>crypto\<close> module, not of this repository, so it is a
  parameter. \<open>cipher lib key iv text\<close> stands for
  \<open>createCipheriv('aes-256-cbc', key, iv)\<close> followed by \<open>update(text, 'utf8')\<close> and
  \<open>final()\<close>, giving the cipher text bytes; \<open>decipher lib key iv data\<close> stands for
  \<open>createDecipheriv\<close> followed by \<open>update(data)\<close> and \<open>final('utf8')\<close>. Either may
  throw (a key or IV of the wrong length, bad padding). The plain text is the string in its
  UTF-8 encoding.
\<close>

record crypto =
  cipher :: "string \<Rightarrow> byte list \<Rightarrow> string \<Rightarrow> js_error + byte list"
  decipher :: "string \<Rightarrow> byte list \<Rightarrow> byte list \<Rightarrow> js_error + string"

subsection \<open>encrypt, decrypt, isValidEncryptedFormat\<close>

text \<open>
  \<open>key\<close> is \<open>ENCRYPTION_KEY\<close>; \<open>iv\<close> is the value drawn by
  \<open>crypto.randomBytes(16)\<close>.
\<close>

definition encrypt :: "crypto \<Rightarrow> string \<Rightarrow> byte list \<Rightarrow> string \<Rightarrow> js_error + string" where
  "encrypt lib key iv text =
     (if text = [] then Inl (Error ''Text to encrypt cannot be empty'')
      else case cipher lib key iv text of
             Inl e \<Rightarrow> Inl e
           | Inr encrypted \<Rightarrow> Inr (toHex iv @ '':'' @ toHex encrypted))"

text \<open>The body of the \<open>try\<close> block of \<open>decrypt\<close>.\<close>

definition decrypt_try :: "crypto \<Rightarrow> string \<Rightarrow> string \<Rightarrow> js_error + string" where
  "decrypt_try lib key encryptedText =
     (case split CHR '':'' encryptedText of
        ivHex # encrypted # _ \<Rightarrow>
          if ivHex = [] \<or> encrypted = [] then Inl (Error ''Invalid encrypted text format'')
          else decipher lib key (fromHex ivHex) (fromHex encrypted)
      | _ \<Rightarrow> Inl (Error ''Invalid encrypted text format''))"

definition decrypt :: "crypto \<Rightarrow> string \<Rightarrow> string \<Rightarrow> js_error + string" where
  "decrypt lib key encryptedText =
     (if encryptedText = [] \<or> CHR '':'' \<notin> set encryptedText
      then Inl (Error ''Invalid encrypted text format'')
      else case decrypt_try lib key encryptedText of
             Inl e \<Rightarrow> Inl (Error (''Failed to decrypt data: '' @ message e))
           | Inr decrypted \<Rightarrow> Inr decrypted)"

definition isValidEncryptedFormat :: "string \<Rightarrow> bool" where
  "isValidEncryptedFormat encryptedText \<longleftrightarrow>
     CHR '':'' \<in> set encryptedText \<and> length (split CHR '':'' encryptedText) = 2"

subsection \<open>secureCompare\<close>

text \<open>
  \<open>charCodeAt\<close> past the end is \<open>NaN\<close>, which the bit operations read as 0. The
  accumulator is a 32-bit integer; a character is read as its code, which fits into it.
\<close>

definition charCodeAt :: "string \<Rightarrow> nat \<Rightarrow> 32 word" where
  "charCodeAt s i = (if i < length s then of_nat (of_char (s ! i)) else 0)"

function secureCompare_loop :: "string \<Rightarrow> string \<Rightarrow> nat \<Rightarrow> 32 word \<Rightarrow> 32 word" where
  "secureCompare_loop a b i result =
     (if i < length a
      then secureCompare_loop a b (i + 1) (result OR (charCodeAt a i XOR charCodeAt b i))
      else result)"
  by pat_completeness auto
termination
  by (relation "measure (\<lambda>(a, b, i, result). length a - i)") auto

declare secureCompare_loop.simps [simp del]

definition secureCompare :: "string \<Rightarrow> string \<Rightarrow> bool" where
  "secureCompare a b =
     (if a = [] \<or> b = [] \<or> length a \<noteq> length b then False
      else secureCompare_loop a b 0 0 = 0)"

section \<open>utils/password.js\<close>

text \<open>
  The bcrypt package is a parameter: \<open>bcrypt_hash lib password rounds salt\<close> is
  \<open>bcrypt.hash(password, rounds)\<close> with the salt it draws, \<open>bcrypt_compare\<close> is
  \<open>bcrypt.compare\<close>; a rejected promise is \<open>Inl\<close>.
\<close>

record bcrypt =
  bcrypt_hash :: "string \<Rightarrow> nat \<Rightarrow> string \<Rightarrow> js_error + string"
  bcrypt_compare :: "string \<Rightarrow> string \<Rightarrow> js_error + bool"

definition hashPassword :: "bcrypt \<Rightarrow> nat \<Rightarrow> string \<Rightarrow> string \<Rightarrow> js_error + string" where
  "hashPassword lib SALT_ROUNDS salt password =
     (if password = [] then Inl (Error ''Password cannot be empty'')
      else if length password < 6
      then Inl (Error ''Password must be at least 6 characters long'')
      else case bcrypt_hash lib password SALT_ROUNDS salt of
             Inl e \<Rightarrow> Inl (Error (''Failed to hash password: '' @ message e))
           | Inr hashedPassword \<Rightarrow> Inr hashedPassword)"

definition comparePassword :: "bcrypt \<Rightarrow> string \<Rightarrow> string \<Rightarrow> js_error + bool" where
  "comparePassword lib password hashedPassword =
     (if password = [] \<or> hashedPassword = [] then Inr False
      else case bcrypt_compare lib password hashedPassword of
             Inl e \<Rightarrow> Inr False
           | Inr isMatch \<Rightarrow> Inr isMatch)"

section \<open>utils/jwt.js\<close>

subsection \<open>The jsonwebtoken package\<close>

text \<open>
  A token is symbolic: either a string that is not a JSON Web Token, or the claims of a
  token together with the key its signature was made with. \<open>jwt_sign\<close> is
  \<open>jwt.sign(payload, secret, {expiresIn, issuer, audience})\<close>, with \<open>expiresIn\<close> in
  seconds counted from the \<open>iat\<close> of the payload. \<open>jwt_verify\<close> is
  \<open>jwt.verify(token, secret, {issuer, audience})\<close> at clock reading \<open>now\<close>: the package
  checks the signature, then the expiry, then the audience, then the issuer.
\<close>

record jwt =
  userId :: string
  emailClaim :: "string option"
  typeClaim :: "string option"
  iat :: int
  exp :: int
  iss :: string
  aud :: string
  signedWith :: string

datatype token = NotJwt string | Signed jwt

definition jwt_sign ::
  "string \<Rightarrow> string option \<Rightarrow> string option \<Rightarrow> int \<Rightarrow> string \<Rightarrow> int \<Rightarrow> string \<Rightarrow> string \<Rightarrow> token" where
  "jwt_sign uid mail ty issuedAt secret expiresIn issuer audience =
     Signed \<lparr> userId = uid, emailClaim = mail, typeClaim = ty, iat = issuedAt,
              exp = issuedAt + expiresIn, iss = issuer, aud = audience, signedWith = secret \<rparr>"

definition jwt_verify :: "token \<Rightarrow> string \<Rightarrow> string \<Rightarrow> string \<Rightarrow> int \<Rightarrow> js_error + jwt" where
  "jwt_verify tok secret issuer audience now =
     (case tok of
        NotJwt s \<Rightarrow> Inl (JsError ''JsonWebTokenError'' ''jwt malformed'')
      | Signed t \<Rightarrow>
          if signedWith t \<noteq> secret
          then Inl (JsError ''JsonWebTokenError'' ''invalid signature'')
          else if now div 1000 \<ge> exp t
          then Inl (JsError ''TokenExpiredError'' ''jwt expired'')
          else if aud t \<noteq> audience
          then Inl (JsError ''JsonWebTokenError'' (''jwt audience invalid. expected: '' @ audience))
          else if iss t \<noteq> issuer
          then Inl (JsError ''JsonWebTokenError'' (''jwt issuer invalid. expected: '' @ issuer))
          else Inr t)"

subsection \<open>generateToken, verifyToken, generateRefreshToken, verifyRefreshToken\<close>

text \<open>
  \<open>JWT_SECRET\<close> is the parameter \<open>secret\<close>, \<open>expiresIn\<close> the life time in seconds
  (\<open>JWT_EXPIRE\<close>, by default \<open>'24h'\<close>), \<open>now\<close> the reading of \<open>Date.now()\<close>.
  A payload without \<open>userId\<close> is the empty user id.
\<close>

definition JWT_EXPIRE :: int where
  "JWT_EXPIRE = 24 * 60 * 60"

definition generateToken :: "string \<Rightarrow> int \<Rightarrow> int \<Rightarrow> string \<Rightarrow> string \<Rightarrow> js_error + token" where
  "generateToken secret expiresIn now uid mail =
     (if uid = [] then Inl (Error ''Payload must contain userId'')
      else Inr (jwt_sign uid (Some mail) None (now div 1000) secret expiresIn
                  ''lenden-app'' ''lenden-users''))"

definition verifyToken :: "string \<Rightarrow> token \<Rightarrow> int \<Rightarrow> js_error + jwt" where
  "verifyToken secret tok now =
     (if tok = NotJwt [] then Inl (Error ''Token is required'')
      else case jwt_verify tok secret ''lenden-app'' ''lenden-users'' now of
             Inr decoded \<Rightarrow> Inr decoded
           | Inl e \<Rightarrow>
               if name e = ''TokenExpiredError'' then Inl (Error ''Token has expired'')
               else if name e = ''JsonWebTokenError'' then Inl (Error ''Invalid token'')
               else if name e = ''NotBeforeError'' then Inl (Error ''Token not active yet'')
               else Inl (Error (''Token verification failed: '' @ message e)))"

definition generateRefreshToken :: "string \<Rightarrow> int \<Rightarrow> string \<Rightarrow> js_error + token" where
  "generateRefreshToken secret now uid =
     (if uid = [] then Inl (Error ''Payload must contain userId'')
      else Inr (jwt_sign uid None (Some ''refresh'') (now div 1000) secret (7 * 24 * 60 * 60)
                  ''lenden-app'' ''lenden-refresh''))"

text \<open>The body of the \<open>try\<close> block of \<open>verifyRefreshToken\<close>.\<close>

definition verifyRefreshToken_try :: "string \<Rightarrow> token \<Rightarrow> int \<Rightarrow> js_error + jwt" where
  "verifyRefreshToken_try secret refreshToken now =
     (case jwt_verify refreshToken secret ''lenden-app'' ''lenden-refresh'' now of
        Inl e \<Rightarrow> Inl e
      | Inr decoded \<Rightarrow>
          if typeClaim decoded \<noteq> Some ''refresh'' then Inl (Error ''Invalid refresh token'')
          else Inr decoded)"

definition verifyRefreshToken :: "string \<Rightarrow> token \<Rightarrow> int \<Rightarrow> js_error + jwt" where
  "verifyRefreshToken secret refreshToken now =
     (if refreshToken = NotJwt [] then Inl (Error ''Refresh token is required'')
      else case verifyRefreshToken_try secret refreshToken now of
             Inr decoded \<Rightarrow> Inr decoded
           | Inl e \<Rightarrow>
               if name e = ''TokenExpiredError'' then Inl (Error ''Refresh token has expired'')
               else if name e = ''JsonWebTokenError'' then Inl (Error ''Invalid refresh token'')
               else Inl (Error (''Refresh token verification failed: '' @ message e)))"

section \<open>models/User.js\<close>

text \<open>
  The fields of the user document that the security layer reads or writes, with the two
  pieces of Mongoose bookkeeping the pre-save hook asks for: \<open>isNew\<close> and the modified
  paths. An unset \<open>lockUntil\<close> is \<open>None\<close>; an unset \<open>loginAttempts\<close> reads as its
  default 0.
\<close>

datatype account_status = Active | Inactive | Suspended

record user =
  uid :: string
  email :: string
  password :: string
  aadhaarNumber :: string
  status :: account_status
  lastLogin :: "int option"
  loginAttempts :: nat
  lockUntil :: "int option"
  isNew :: bool
  modifiedPaths :: "string list"

definition isModified :: "user \<Rightarrow> string \<Rightarrow> bool" where
  "isModified u path \<longleftrightarrow> path \<in> set (modifiedPaths u)"

definition isLocked :: "user \<Rightarrow> int \<Rightarrow> bool" where
  "isLocked u now = (case lockUntil u of None \<Rightarrow> False | Some t \<Rightarrow> t > now)"

text \<open>
  The pre-save hook. It returns the error handed to \<open>next\<close>, if any, and the document as
  the hook leaves it. \<open>salt\<close> and \<open>iv\<close> are the random values drawn by the hashing and by
  the encryption.
\<close>

definition pre_save ::
  "bcrypt \<Rightarrow> nat \<Rightarrow> crypto \<Rightarrow> string \<Rightarrow> string \<Rightarrow> byte list \<Rightarrow> user \<Rightarrow> js_error option \<times> user" where
  "pre_save blib SALT_ROUNDS clib key salt iv u =
     (case (if isNew u \<or> isModified u ''password''
            then (case hashPassword blib SALT_ROUNDS salt (password u) of
                    Inl e \<Rightarrow> Inl e
                  | Inr h \<Rightarrow> Inr (u\<lparr>password := h\<rparr>))
            else Inr u) of
        Inl e \<Rightarrow> (Some e, u)
      | Inr u1 \<Rightarrow>
          if isNew u1 \<or> isModified u1 ''aadhaarNumber''
          then if CHR '':'' \<notin> set (aadhaarNumber u1)
               then (case encrypt clib key iv (aadhaarNumber u1) of
                       Inl e \<Rightarrow> (Some e, u1)
                     | Inr c \<Rightarrow> (None, u1\<lparr>aadhaarNumber := c\<rparr>))
               else (None, u1)
          else (None, u1))"

text \<open>
  \<open>incLoginAttempts\<close> and \<open>resetLoginAttempts\<close> issue one \<open>updateOne\<close> each; the result
  is the stored document after it. \<open>now\<close> is the reading of \<open>Date.now()\<close>.
\<close>

definition incLoginAttempts :: "user \<Rightarrow> int \<Rightarrow> user" where
  "incLoginAttempts u now =
     (if (case lockUntil u of None \<Rightarrow> False | Some t \<Rightarrow> t < now)
      then u\<lparr>loginAttempts := 1, lockUntil := None\<rparr>
      else if loginAttempts u + 1 \<ge> 5 \<and> \<not> isLocked u now
      then u\<lparr>loginAttempts := loginAttempts u + 1, lockUntil := Some (now + 2 * 60 * 60 * 1000)\<rparr>
      else u\<lparr>loginAttempts := loginAttempts u + 1\<rparr>)"

definition resetLoginAttempts :: "user \<Rightarrow> user" where
  "resetLoginAttempts u = u\<lparr>loginAttempts := 0, lockUntil := None\<rparr>"

section \<open>controllers/authController.js: login\<close>

text \<open>
  A response is the HTTP status with the \<open>message\<close> of the JSON body; the successful login
  also carries the access token and the refresh token; an exception caught by the handler is
  passed to \<open>next\<close>. \<open>found\<close> is what \<open>User.findByEmail(email)\<close> returned. The second
  component of the result is the stored document after the request. All readings of
  \<open>Date.now()\<close> during one request return the same value \<open>now\<close>. The final
  \<open>user.save()\<close> writes the one modified path, \<open>lastLogin\<close>.
\<close>

datatype response =
    Response nat string
  | LoginSuccessful token token
  | Next js_error

definition login ::
  "bcrypt \<Rightarrow> string \<Rightarrow> user option \<Rightarrow> string \<Rightarrow> string \<Rightarrow> int \<Rightarrow> response \<times> user option" where
  "login blib secret found mail pw now =
     (if mail = [] \<or> pw = [] then (Response 400 ''Email and password are required'', found)
      else case found of
        None \<Rightarrow> (Response 401 ''Invalid email or password'', None)
      | Some u \<Rightarrow>
          if isLocked u now
          then (Response 423 ''Account is temporarily locked due to too many failed login attempts. Please try again later.'', Some u)
          else if status u \<noteq> Active
          then (Response 401 ''Account is inactive. Please contact support.'', Some u)
          else case bcrypt_compare blib pw (password u) of
            Inl e \<Rightarrow> (Next e, Some u)
          | Inr False \<Rightarrow> (Response 401 ''Incorrect Password!'', Some (incLoginAttempts u now))
          | Inr True \<Rightarrow>
              (let u1 = (if loginAttempts u > 0 then resetLoginAttempts u else u);
                   u2 = u1\<lparr>lastLogin := Some now\<rparr>
               in case generateToken secret JWT_EXPIRE now (uid u2) (email u2) of
                    Inl e \<Rightarrow> (Next e, Some u2)
                  | Inr tok \<Rightarrow>
                      (case generateRefreshToken secret now (uid u2) of
                         Inl e \<Rightarrow> (Next e, Some u2)
                       | Inr refreshToken \<Rightarrow> (LoginSuccessful tok refreshToken, Some u2))))"

text \<open>A sequence of login requests for one account, each with its password and its time.\<close>

fun logins :: "bcrypt \<Rightarrow> string \<Rightarrow> string \<Rightarrow> (string \<times> int) list \<Rightarrow> user option \<Rightarrow> user option" where
  "logins blib secret mail [] found = found"
| "logins blib secret mail ((pw, now) # rest) found =
     logins blib secret mail rest (snd (login blib secret found mail pw now))"

section \<open>Sample instances of the library parameters\<close>

text \<open>
  Executable stand-ins for the two packages, used to run the model on concrete inputs:
  a cipher that masks every byte with the first byte of the IV and appends one byte of
  padding, and a password hash that tags the password.
\<close>

definition sample_crypto :: crypto where
  "sample_crypto = \<lparr>
     cipher = (\<lambda>key iv text.
       if length key \<noteq> 32 \<or> length iv \<noteq> 16 then Inl (Error ''Invalid key or iv'')
       else Inr (map (\<lambda>c. of_nat (of_char c) XOR hd iv) text @ [16])),
     decipher = (\<lambda>key iv data.
       if length key \<noteq> 32 \<or> length iv \<noteq> 16 then Inl (Error ''Invalid key or iv'')
       else if data = [] \<or> last data \<noteq> 16 then Inl (Error ''bad decrypt'')
       else Inr (map (\<lambda>b. char_of (unat (b XOR hd iv))) (butlast data))) \<rparr>"

definition sample_bcrypt :: bcrypt where
  "sample_bcrypt = \<lparr>
     bcrypt_hash = (\<lambda>pw rounds salt. Inr (''$2b$'' @ pw)),
     bcrypt_compare = (\<lambda>pw h. Inr (h = ''$2b$'' @ pw)) \<rparr>"

definition sample_key :: string where
  "sample_key = ''0123456789abcdef0123456789abcdef''"

definition sample_iv :: "byte list" where
  "sample_iv = [7, 1, 2, 3, 4, 5, 6, 7, 8, 9, 10, 11, 12, 13, 14, 15]"

definition sample_iv2 :: "byte list" where
  "sample_iv2 = [9, 1, 2, 3, 4, 5, 6, 7, 8, 9, 10, 11, 12, 13, 14, 15]"

definition sample_user :: user where
  "sample_user = \<lparr> uid = ''u1'', email = ''a@b.co'', password = ''$2b$secret1'',
     aadhaarNumber = ''123456789012'', status = Active, lastLogin = None,
     loginAttempts = 0, lockUntil = None, isNew = False, modifiedPaths = [] \<rparr>"

definition sample_refresh_token :: token where
  "sample_refresh_token = Signed \<lparr> userId = ''u1'', emailClaim = None,
     typeClaim = Some ''refresh'', iat = 0, exp = 604800, iss = ''lenden-app'',
     aud = ''lenden-refresh'', signedWith = ''k'' \<rparr>"

section \<open>Hex encoding and splitting\<close>

lemma hex_digit_table:
  "\<forall>n \<in> set [0..<16]. hex_val (hex_digit n) = Some n \<and> hex_digit n \<noteq> CHR '':''"
  by code_simp

lemma hex_val_hex_digit: "n < 16 \<Longrightarrow> hex_val (hex_digit n) = Some n"
  using hex_digit_table by simp

lemma hex_digit_not_colon: "n < 16 \<Longrightarrow> hex_digit n \<noteq> CHR '':''"
  using hex_digit_table by simp

lemma unat_byte_div16: "unat (b :: byte) div 16 < 16"
  using unsigned_less [of b, where ?'a = nat] by simp

lemma hex_byte_no_colon: "CHR '':'' \<notin> set (hex_byte b)"
  using hex_digit_not_colon [of "unat b div 16"] hex_digit_not_colon [of "unat b mod 16"]
  by (simp add: hex_byte_def unat_byte_div16)

lemma fromHex_toHex: "fromHex (toHex bs) = bs"
  by (induction bs) (simp_all add: toHex_def hex_byte_def hex_val_hex_digit unat_byte_div16)

lemma colon_notin_toHex: "CHR '':'' \<notin> set (toHex bs)"
  by (simp add: toHex_def hex_byte_no_colon)

lemma length_toHex: "length (toHex bs) = 2 * length bs"
  by (induction bs) (simp_all add: toHex_def hex_byte_def)

lemma toHex_inj: "toHex xs = toHex ys \<Longrightarrow> xs = ys"
  using fromHex_toHex by metis

lemma split_no_sep: "sep \<notin> set s \<Longrightarrow> split sep s = [s]"
  by (induction s) auto

lemma split_append: "sep \<notin> set s \<Longrightarrow> split sep (s @ sep # t) = s # split sep t"
  by (induction s) auto

section \<open>Encryption: round trip and fresh IVs\<close>

lemma decrypt_blob:
  assumes "iv \<noteq> []" and "ct \<noteq> []"
  shows "decrypt lib key (toHex iv @ '':'' @ toHex ct) =
           (case decipher lib key iv ct of
              Inl e \<Rightarrow> Inl (Error (''Failed to decrypt data: '' @ message e))
            | Inr decrypted \<Rightarrow> Inr decrypted)"
proof -
  have sp: "split CHR '':'' (toHex iv @ '':'' @ toHex ct) = [toHex iv, toHex ct]"
    using split_append [OF colon_notin_toHex, of iv "toHex ct"]
    by (simp add: split_no_sep colon_notin_toHex)
  have ne: "toHex iv \<noteq> []" "toHex ct \<noteq> []"
    using assms length_toHex [of iv] length_toHex [of ct] by auto
  have "decrypt_try lib key (toHex iv @ '':'' @ toHex ct) = decipher lib key iv ct"
    unfolding decrypt_try_def sp using ne by (simp add: fromHex_toHex)
  then show ?thesis
    by (simp add: decrypt_def)
qed

lemma encrypt_blob:
  assumes "P \<noteq> []" and "cipher lib key iv P = Inr ct"
  shows "encrypt lib key iv P = Inr (toHex iv @ '':'' @ toHex ct)"
  using assms by (simp add: encrypt_def)

lemma decrypt_encrypted:
  assumes "length iv = 16" and "ct \<noteq> []" and "decipher lib key iv ct = Inr P"
  shows "decrypt lib key (toHex iv @ '':'' @ toHex ct) = Inr P"
proof -
  have "iv \<noteq> []" using assms(1) by auto
  from decrypt_blob [OF this assms(2), of lib key] assms(3) show ?thesis by simp
qed

lemma blobs_differ:
  assumes "length iv1 = length iv2" and "iv1 \<noteq> iv2"
  shows "toHex iv1 @ '':'' @ toHex ct1 \<noteq> toHex iv2 @ '':'' @ toHex ct2"
proof
  assume eq: "toHex iv1 @ '':'' @ toHex ct1 = toHex iv2 @ '':'' @ toHex ct2"
  have "length (toHex iv1) = length (toHex iv2)"
    using assms(1) by (simp add: length_toHex)
  with eq have "toHex iv1 = toHex iv2" by simp
  then show False using assms(2) toHex_inj by blast
qed

lemma sample_cipher:
  assumes "length key = 32" and "length iv = 16"
  shows "cipher sample_crypto key iv P = Inr (map (\<lambda>c. of_nat (of_char c) XOR hd iv) P @ [16])"
  using assms by (simp add: sample_crypto_def)

lemma sample_byte_back: "char_of (unat ((of_nat (of_char c) XOR k) XOR (k :: byte))) = c"
proof -
  have "(of_nat (of_char c) XOR k) XOR k = (of_nat (of_char c) :: byte)"
    by (simp add: xor.assoc)
  moreover have "unat (of_nat (of_char c) :: byte) = of_char c"
    by (simp add: unat_of_nat)
  ultimately show ?thesis by simp
qed

lemma sample_decipher:
  assumes "length key = 32" and "length iv = 16"
  shows "decipher sample_crypto key iv (map (\<lambda>c. of_nat (of_char c) XOR hd iv) P @ [16]) = Inr P"
  using assms by (simp add: sample_crypto_def o_def sample_byte_back)

text \<open>
  C1. For every non-empty plain text \<open>P\<close> and every 16-byte IV that \<open>encrypt\<close> may draw,
  \<open>encrypt\<close> returns a blob and \<open>decrypt\<close> of that blob returns exactly \<open>P\<close>. The
  cipher of the crypto module is taken to do its part on this input: it encrypts \<open>P\<close> to a
  non-empty cipher text \<open>ct\<close> and deciphers \<open>ct\<close> back to \<open>P\<close>.
\<close>

theorem decrypt_encrypt_roundtrip:
  assumes "P \<noteq> []" and "length iv = 16"
    and "cipher lib key iv P = Inr ct" and "ct \<noteq> []"
    and "decipher lib key iv ct = Inr P"
  shows "\<exists>blob. encrypt lib key iv P = Inr blob \<and> decrypt lib key blob = Inr P"
  using encrypt_blob [OF assms(1,3)] decrypt_encrypted [OF assms(2,4,5)] by simp

theorem decrypt_encrypt_roundtrip_witness:
  "\<exists>blob. encrypt sample_crypto sample_key sample_iv ''123456789012'' = Inr blob
     \<and> decrypt sample_crypto sample_key blob = Inr ''123456789012''"
proof -
  have k: "length sample_key = 32" and i: "length sample_iv = 16"
    by (simp_all add: sample_key_def sample_iv_def)
  show ?thesis
    by (rule decrypt_encrypt_roundtrip [OF _ i sample_cipher [OF k i] _ sample_decipher [OF k i]])
      simp_all
qed

text \<open>
  C7. For every non-empty plain text \<open>P\<close>, two calls of \<open>encrypt\<close> that draw two distinct
  16-byte IVs return two different blobs, and \<open>decrypt\<close> returns \<open>P\<close> for both. The
  cipher of the crypto module is taken to do its part for both IVs.
\<close>

theorem encrypt_twice_distinct_blobs:
  assumes "P \<noteq> []" and "length iv1 = 16" and "length iv2 = 16" and "iv1 \<noteq> iv2"
    and "cipher lib key iv1 P = Inr ct1" and "ct1 \<noteq> []" and "decipher lib key iv1 ct1 = Inr P"
    and "cipher lib key iv2 P = Inr ct2" and "ct2 \<noteq> []" and "decipher lib key iv2 ct2 = Inr P"
  shows "\<exists>blob1 blob2. encrypt lib key iv1 P = Inr blob1 \<and> encrypt lib key iv2 P = Inr blob2
           \<and> blob1 \<noteq> blob2
           \<and> decrypt lib key blob1 = Inr P \<and> decrypt lib key blob2 = Inr P"
proof -
  have "length iv1 = length iv2" using assms(2,3) by simp
  from blobs_differ [OF this assms(4)]
  have "toHex iv1 @ '':'' @ toHex ct1 \<noteq> toHex iv2 @ '':'' @ toHex ct2" .
  then show ?thesis
    using encrypt_blob [OF assms(1,5)] encrypt_blob [OF assms(1,8)]
      decrypt_encrypted [OF assms(2,6,7)] decrypt_encrypted [OF assms(3,9,10)]
    by blast
qed

theorem encrypt_twice_distinct_blobs_witness:
  "\<exists>blob1 blob2. encrypt sample_crypto sample_key sample_iv ''123456789012'' = Inr blob1
     \<and> encrypt sample_crypto sample_key sample_iv2 ''123456789012'' = Inr blob2
     \<and> blob1 \<noteq> blob2
     \<and> decrypt sample_crypto sample_key blob1 = Inr ''123456789012''
     \<and> decrypt sample_crypto sample_key blob2 = Inr ''123456789012''"
proof -
  have k: "length sample_key = 32" and i: "length sample_iv = 16" and j: "length sample_iv2 = 16"
    by (simp_all add: sample_key_def sample_iv_def sample_iv2_def)
  have d: "sample_iv \<noteq> sample_iv2"
    by (simp add: sample_iv_def sample_iv2_def)
  show ?thesis
    by (rule encrypt_twice_distinct_blobs [OF _ i j d sample_cipher [OF k i] _
          sample_decipher [OF k i] sample_cipher [OF k j] _ sample_decipher [OF k j]])
      simp_all
qed

section \<open>decrypt on inputs with more than one separator\<close>

lemma decrypt_no_colon:
  "CHR '':'' \<notin> set s \<Longrightarrow> decrypt lib key s = Inl (Error ''Invalid encrypted text format'')"
  by (simp add: decrypt_def)

lemma decrypt_ignores_later_segments:
  assumes "iv \<noteq> []" and "ct \<noteq> []"
  shows "decrypt lib key (toHex iv @ '':'' @ toHex ct @ '':'' @ extra) =
           decrypt lib key (toHex iv @ '':'' @ toHex ct)"
proof -
  have ne: "toHex iv \<noteq> []" "toHex ct \<noteq> []"
    using assms length_toHex [of iv] length_toHex [of ct] by auto
  have "split CHR '':'' (toHex iv @ '':'' @ toHex ct @ '':'' @ extra) =
          toHex iv # toHex ct # split CHR '':'' extra"
    using split_append [OF colon_notin_toHex, of iv "toHex ct @ '':'' @ extra"]
      split_append [OF colon_notin_toHex, of ct extra]
    by simp
  then have "decrypt_try lib key (toHex iv @ '':'' @ toHex ct @ '':'' @ extra) =
               decipher lib key iv ct"
    using ne by (simp add: decrypt_try_def fromHex_toHex)
  then show ?thesis
    using decrypt_blob [OF assms, of lib key] by (simp add: decrypt_def)
qed

text \<open>
  C4, at an input with two separators. \<open>decrypt\<close> keeps the first two segments, hands
  them to the decipher and returns what the decipher returns: its plain text, or its error
  under the message \<open>Failed to decrypt data\<close>. The result is never the format error,
  although \<open>isValidEncryptedFormat\<close> rejects the same input.
\<close>

theorem decrypt_two_colons_runs_decipher:
  "decrypt lib key ''00000000000000000000000000000000:00000000000000000000000000000000:00'' =
     (case decipher lib key [0, 0, 0, 0, 0, 0, 0, 0, 0, 0, 0, 0, 0, 0, 0, 0]
                            [0, 0, 0, 0, 0, 0, 0, 0, 0, 0, 0, 0, 0, 0, 0, 0] of
        Inl e \<Rightarrow> Inl (Error (''Failed to decrypt data: '' @ message e))
      | Inr decrypted \<Rightarrow> Inr decrypted)
   \<and> decrypt lib key ''00000000000000000000000000000000:00000000000000000000000000000000:00''
       \<noteq> Inl (Error ''Invalid encrypted text format'')
   \<and> \<not> isValidEncryptedFormat
         ''00000000000000000000000000000000:00000000000000000000000000000000:00''"
proof -
  have "\<not> isValidEncryptedFormat
         ''00000000000000000000000000000000:00000000000000000000000000000000:00''"
    by (simp add: isValidEncryptedFormat_def)
  moreover
  have "decrypt_try lib key
          ''00000000000000000000000000000000:00000000000000000000000000000000:00'' =
        decipher lib key [0, 0, 0, 0, 0, 0, 0, 0, 0, 0, 0, 0, 0, 0, 0, 0]
                         [0, 0, 0, 0, 0, 0, 0, 0, 0, 0, 0, 0, 0, 0, 0, 0]"
    by (simp add: decrypt_try_def hex_val_def)
  then have "decrypt lib key
          ''00000000000000000000000000000000:00000000000000000000000000000000:00'' =
     (case decipher lib key [0, 0, 0, 0, 0, 0, 0, 0, 0, 0, 0, 0, 0, 0, 0, 0]
                            [0, 0, 0, 0, 0, 0, 0, 0, 0, 0, 0, 0, 0, 0, 0, 0] of
        Inl e \<Rightarrow> Inl (Error (''Failed to decrypt data: '' @ message e))
      | Inr decrypted \<Rightarrow> Inr decrypted)"
    by (simp add: decrypt_def)
  ultimately show ?thesis
    by (simp split: sum.split)
qed

section \<open>secureCompare\<close>

lemma xor_word_eq_0: "(x :: 32 word) XOR y = 0 \<longleftrightarrow> x = y"
  by (metis bit.xor_left_self xor.right_neutral)

lemma charCode_inj:
  "(of_nat (of_char c) :: 32 word) = of_nat (of_char d) \<longleftrightarrow> c = d"
proof -
  have "(of_char c :: nat) < 2 ^ 32" "(of_char d :: nat) < 2 ^ 32"
    by (rule less_trans [OF nat_of_char_less_256], simp)+
  then show ?thesis
    by (simp add: word_of_nat_eq_iff take_bit_nat_eq_self)
qed

lemma all_from:
  assumes "(i :: nat) < n"
  shows "(\<forall>j. i \<le> j \<and> j < n \<longrightarrow> Q j) \<longleftrightarrow> Q i \<and> (\<forall>j. i + 1 \<le> j \<and> j < n \<longrightarrow> Q j)"
proof
  assume h: "\<forall>j. i \<le> j \<and> j < n \<longrightarrow> Q j"
  have "i \<le> i \<and> i < n \<longrightarrow> Q i" using h by (rule spec)
  then have "Q i" using assms by simp
  moreover have "Q j" if "i + 1 \<le> j \<and> j < n" for j
  proof -
    have "i \<le> j \<and> j < n \<longrightarrow> Q j" using h by (rule spec)
    then show ?thesis using that by simp
  qed
  ultimately show "Q i \<and> (\<forall>j. i + 1 \<le> j \<and> j < n \<longrightarrow> Q j)" by simp
next
  assume h: "Q i \<and> (\<forall>j. i + 1 \<le> j \<and> j < n \<longrightarrow> Q j)"
  show "\<forall>j. i \<le> j \<and> j < n \<longrightarrow> Q j"
  proof (intro allI impI)
    fix j assume j: "i \<le> j \<and> j < n"
    show "Q j"
    proof (cases "j = i")
      case True
      then show ?thesis using h by simp
    next
      case False
      then have "i + 1 \<le> j" using j by simp
      then show ?thesis using h j by blast
    qed
  qed
qed

text \<open>
  The loop leaves 0 in the accumulator exactly when it started at 0 and the two strings
  agree at every index from \<open>i\<close> on.
\<close>

lemma secureCompare_loop_zero:
  "length a = length b \<Longrightarrow>
   secureCompare_loop a b i r = 0 \<longleftrightarrow> r = 0 \<and> (\<forall>j. i \<le> j \<and> j < length a \<longrightarrow> a ! j = b ! j)"
proof (induction a b i r rule: secureCompare_loop.induct)
  case (1 a b i result)
  show ?case
  proof (cases "i < length a")
    case False
    then show ?thesis by (auto simp: secureCompare_loop.simps [of a b i result])
  next
    case True
    have cc: "charCodeAt a i XOR charCodeAt b i = 0 \<longleftrightarrow> a ! i = b ! i"
      using True "1.prems" by (simp add: charCodeAt_def xor_word_eq_0 charCode_inj)
    have "secureCompare_loop a b i result =
            secureCompare_loop a b (i + 1) (result OR (charCodeAt a i XOR charCodeAt b i))"
      using True by (simp add: secureCompare_loop.simps [of a b i result])
    also have "\<dots> = 0 \<longleftrightarrow> (result OR (charCodeAt a i XOR charCodeAt b i)) = 0
                 \<and> (\<forall>j. i + 1 \<le> j \<and> j < length a \<longrightarrow> a ! j = b ! j)"
      using "1.IH" [OF True "1.prems"] .
    also have "\<dots> \<longleftrightarrow> result = 0 \<and> (\<forall>j. i \<le> j \<and> j < length a \<longrightarrow> a ! j = b ! j)"
      using cc all_from [OF True, of "\<lambda>j. a ! j = b ! j"] by (auto simp: or_eq_0_iff)
    finally show ?thesis .
  qed
qed

lemma secureCompare_eq: "secureCompare a b \<longleftrightarrow> a = b \<and> a \<noteq> []"
proof (cases "a = [] \<or> b = [] \<or> length a \<noteq> length b")
  case True
  then show ?thesis by (auto simp: secureCompare_def)
next
  case False
  then have len: "length a = length b" by simp
  have "secureCompare a b \<longleftrightarrow> (\<forall>j. j < length a \<longrightarrow> a ! j = b ! j)"
    using False secureCompare_loop_zero [OF len, of 0 0] by (simp add: secureCompare_def)
  also have "\<dots> \<longleftrightarrow> a = b"
    using len by (auto simp: list_eq_iff_nth_eq)
  finally show ?thesis using False by auto
qed

text \<open>
  C9. \<open>secureCompare a b\<close> is true exactly when \<open>a\<close> and \<open>b\<close> are equal and not empty.
  In particular it is false for two empty strings, and false whenever an argument is empty or
  the lengths differ.
\<close>

theorem secureCompare_true_iff_equal_nonempty:
  "(secureCompare a b \<longleftrightarrow> a = b \<and> a \<noteq> [])
   \<and> \<not> secureCompare [] []
   \<and> (a = [] \<or> b = [] \<or> length a \<noteq> length b \<longrightarrow> \<not> secureCompare a b)"
  using secureCompare_eq [of a b] secureCompare_eq [of "[]" "[]"] by auto

theorem secureCompare_true_iff_equal_nonempty_witness:
  "secureCompare ''hello'' ''hello'' \<and> \<not> secureCompare [] []
   \<and> length ''hello'' \<noteq> length ''hello123'' \<and> \<not> secureCompare ''hello'' ''hello123''"
  using secureCompare_true_iff_equal_nonempty [of "''hello''" "''hello''"]
    secureCompare_true_iff_equal_nonempty [of "''hello''" "''hello123''"]
  by simp

section \<open>comparePassword\<close>

text \<open>
  C8. \<open>comparePassword\<close> never throws: for every pair of inputs it returns a boolean,
  which is true exactly when both inputs are non-empty and bcrypt reports a match. So it is
  false when an input is empty, when bcrypt rejects the inputs as malformed, and when bcrypt
  reports a mismatch.
\<close>

theorem comparePassword_never_throws:
  "\<exists>r. comparePassword lib pw hashedPassword = Inr r
       \<and> (r \<longleftrightarrow> pw \<noteq> [] \<and> hashedPassword \<noteq> [] \<and> bcrypt_compare lib pw hashedPassword = Inr True)"
  by (cases "bcrypt_compare lib pw hashedPassword") (auto simp: comparePassword_def)

theorem comparePassword_never_throws_witness:
  "comparePassword sample_bcrypt ''secret1'' ''$2b$secret1'' = Inr True
   \<and> comparePassword sample_bcrypt ''wrong'' ''$2b$secret1'' = Inr False
   \<and> comparePassword sample_bcrypt [] ''$2b$secret1'' = Inr False"
  using comparePassword_never_throws [of sample_bcrypt "''secret1''" "''$2b$secret1''"]
    comparePassword_never_throws [of sample_bcrypt "''wrong''" "''$2b$secret1''"]
    comparePassword_never_throws [of sample_bcrypt "[]" "''$2b$secret1''"]
  by (auto simp: sample_bcrypt_def)

section \<open>Login and the lockout counter\<close>

lemma login_wrong_password:
  assumes "mail \<noteq> []" and "pw \<noteq> []" and "\<not> isLocked u now" and "status u = Active"
    and "bcrypt_compare blib pw (password u) = Inr False"
  shows "login blib secret (Some u) mail pw now =
           (Response 401 ''Incorrect Password!'', Some (incLoginAttempts u now))"
  using assms by (simp add: login_def)

lemma login_locked:
  assumes "mail \<noteq> []" and "pw \<noteq> []" and "isLocked u now"
  shows "login blib secret (Some u) mail pw now =
           (Response 423 ''Account is temporarily locked due to too many failed login attempts. Please try again later.'', Some u)"
  using assms by (simp add: login_def)

lemma incLoginAttempts_no_lock:
  assumes "lockUntil u = None"
  shows "loginAttempts (incLoginAttempts u now) = loginAttempts u + 1"
    and "lockUntil (incLoginAttempts u now) =
           (if loginAttempts u + 1 \<ge> 5 then Some (now + 2 * 60 * 60 * 1000) else None)"
    and "status (incLoginAttempts u now) = status u"
    and "password (incLoginAttempts u now) = password u"
  using assms by (simp_all add: incLoginAttempts_def isLocked_def)

lemma logins_append:
  "logins blib secret mail (xs @ ys) found =
     logins blib secret mail ys (logins blib secret mail xs found)"
  by (induction xs arbitrary: found) auto

text \<open>
  Failed attempts below the threshold only count: after \<open>k\<close> of them the counter has grown
  by \<open>k\<close> and no lock is set.
\<close>

lemma logins_failures_below_threshold:
  assumes "lockUntil u = None" and "status u = Active" and "mail \<noteq> []"
    and "\<forall>(pw, now) \<in> set attempts. pw \<noteq> [] \<and> bcrypt_compare blib pw (password u) = Inr False"
    and "loginAttempts u + length attempts < 5"
  shows "\<exists>u'. logins blib secret mail attempts (Some u) = Some u'
           \<and> loginAttempts u' = loginAttempts u + length attempts
           \<and> lockUntil u' = None \<and> status u' = Active \<and> password u' = password u"
  using assms
proof (induction attempts arbitrary: u)
  case Nil
  then show ?case by simp
next
  case (Cons a attempts)
  obtain pw now where a: "a = (pw, now)" by (cases a)
  let ?v = "incLoginAttempts u now"
  have unlocked: "\<not> isLocked u now"
    using Cons.prems(1) by (simp add: isLocked_def)
  have wrong: "pw \<noteq> []" "bcrypt_compare blib pw (password u) = Inr False"
    using Cons.prems(4) a by auto
  have step: "login blib secret (Some u) mail pw now =
                (Response 401 ''Incorrect Password!'', Some ?v)"
    by (rule login_wrong_password [OF Cons.prems(3) wrong(1) unlocked Cons.prems(2) wrong(2)])
  have v: "loginAttempts ?v = loginAttempts u + 1" "lockUntil ?v = None"
      "status ?v = Active" "password ?v = password u"
    using incLoginAttempts_no_lock [OF Cons.prems(1), of now] Cons.prems(2,5) by simp_all
  have rest: "\<forall>(pw, now) \<in> set attempts.
                pw \<noteq> [] \<and> bcrypt_compare blib pw (password ?v) = Inr False"
    using Cons.prems(4) v(4) by simp
  have "loginAttempts ?v + length attempts < 5"
    using Cons.prems(5) v(1) by simp
  from Cons.IH [OF v(2) v(3) Cons.prems(3) rest this]
  show ?case using a step v by auto
qed

text \<open>
  C2. From an unlocked account with \<open>loginAttempts = 0\<close>, four failed attempts leave the
  account unlocked with \<open>loginAttempts = 4\<close>; the fifth failed attempt, made at time \<open>t5\<close>,
  stores \<open>loginAttempts = 5\<close> and \<open>lockUntil = t5 + 2 hours\<close>. Every further attempt at a
  time before \<open>lockUntil\<close> gets the account-locked response (status 423) and leaves the stored
  document as it is, whatever the password and whatever bcrypt would say about it.
\<close>

theorem lockout_after_five_failures:
  assumes "loginAttempts u = 0" and "lockUntil u = None" and "status u = Active"
    and "mail \<noteq> []" and "length first4 = 4"
    and "\<forall>(pw, now) \<in> set (first4 @ [(pw5, t5)]).
           pw \<noteq> [] \<and> bcrypt_compare blib pw (password u) = Inr False"
  shows "\<exists>u4 u5. logins blib secret mail first4 (Some u) = Some u4
           \<and> loginAttempts u4 = 4 \<and> lockUntil u4 = None
           \<and> login blib secret (Some u4) mail pw5 t5 = (Response 401 ''Incorrect Password!'', Some u5)
           \<and> loginAttempts u5 = 5 \<and> lockUntil u5 = Some (t5 + 2 * 60 * 60 * 1000)
           \<and> (\<forall>blib' pw now. pw \<noteq> [] \<and> now < t5 + 2 * 60 * 60 * 1000 \<longrightarrow>
                 login blib' secret (Some u5) mail pw now =
                   (Response 423 ''Account is temporarily locked due to too many failed login attempts. Please try again later.'', Some u5))"
proof -
  have four: "\<forall>(pw, now) \<in> set first4.
                pw \<noteq> [] \<and> bcrypt_compare blib pw (password u) = Inr False"
    using assms(6) by simp
  have "loginAttempts u + length first4 < 5"
    using assms(1,5) by simp
  from logins_failures_below_threshold [OF assms(2,3,4) four this]
  obtain u4 where u4: "logins blib secret mail first4 (Some u) = Some u4"
      "loginAttempts u4 = 4" "lockUntil u4 = None" "status u4 = Active"
      "password u4 = password u"
    using assms(1,5) by auto
  let ?u5 = "incLoginAttempts u4 t5"
  have wrong5: "pw5 \<noteq> []" "bcrypt_compare blib pw5 (password u4) = Inr False"
    using assms(6) u4(5) by simp_all
  have "\<not> isLocked u4 t5"
    using u4(3) by (simp add: isLocked_def)
  from login_wrong_password [OF assms(4) wrong5(1) this u4(4) wrong5(2)]
  have fifth: "login blib secret (Some u4) mail pw5 t5 =
                 (Response 401 ''Incorrect Password!'', Some ?u5)" .
  have u5: "loginAttempts ?u5 = 5" "lockUntil ?u5 = Some (t5 + 2 * 60 * 60 * 1000)"
    using incLoginAttempts_no_lock [OF u4(3), of t5] u4(2) by simp_all
  have locked: "login blib' secret (Some ?u5) mail pw now =
      (Response 423 ''Account is temporarily locked due to too many failed login attempts. Please try again later.'', Some ?u5)"
    if "pw \<noteq> [] \<and> now < t5 + 2 * 60 * 60 * 1000" for blib' pw now
  proof -
    have "isLocked ?u5 now"
      using that u5(2) by (simp add: isLocked_def)
    then show ?thesis
      using login_locked [OF assms(4), of pw ?u5 now blib' secret] that by simp
  qed
  show ?thesis
    using u4(1,2,3) fifth u5 locked by blast
qed

theorem lockout_after_five_failures_witness:
  "\<exists>u4 u5. logins sample_bcrypt ''k'' ''a@b.co''
              [(''bad1'', 1000), (''bad2'', 2000), (''bad3'', 3000), (''bad4'', 4000)]
              (Some sample_user) = Some u4
     \<and> loginAttempts u4 = 4 \<and> lockUntil u4 = None
     \<and> login sample_bcrypt ''k'' (Some u4) ''a@b.co'' ''bad5'' 5000 =
          (Response 401 ''Incorrect Password!'', Some u5)
     \<and> loginAttempts u5 = 5 \<and> lockUntil u5 = Some 7205000
     \<and> login sample_bcrypt ''k'' (Some u5) ''a@b.co'' ''secret1'' 6000 =
          (Response 423 ''Account is temporarily locked due to too many failed login attempts. Please try again later.'', Some u5)"
proof -
  have "\<exists>u4 u5. logins sample_bcrypt ''k'' ''a@b.co''
              [(''bad1'', 1000), (''bad2'', 2000), (''bad3'', 3000), (''bad4'', 4000)]
              (Some sample_user) = Some u4
     \<and> loginAttempts u4 = 4 \<and> lockUntil u4 = None
     \<and> login sample_bcrypt ''k'' (Some u4) ''a@b.co'' ''bad5'' 5000 =
          (Response 401 ''Incorrect Password!'', Some u5)
     \<and> loginAttempts u5 = 5 \<and> lockUntil u5 = Some (5000 + 2 * 60 * 60 * 1000)
     \<and> (\<forall>blib' pw now. pw \<noteq> [] \<and> now < 5000 + 2 * 60 * 60 * 1000 \<longrightarrow>
           login blib' ''k'' (Some u5) ''a@b.co'' pw now =
             (Response 423 ''Account is temporarily locked due to too many failed login attempts. Please try again later.'', Some u5))"
    by (rule lockout_after_five_failures) (simp_all add: sample_user_def sample_bcrypt_def)
  then obtain u4 u5 where h: "logins sample_bcrypt ''k'' ''a@b.co''
              [(''bad1'', 1000), (''bad2'', 2000), (''bad3'', 3000), (''bad4'', 4000)]
              (Some sample_user) = Some u4"
     "loginAttempts u4 = 4" "lockUntil u4 = None"
     "login sample_bcrypt ''k'' (Some u4) ''a@b.co'' ''bad5'' 5000 =
          (Response 401 ''Incorrect Password!'', Some u5)"
     "loginAttempts u5 = 5" "lockUntil u5 = Some (5000 + 2 * 60 * 60 * 1000)"
     "\<forall>blib' pw now. pw \<noteq> [] \<and> now < 5000 + 2 * 60 * 60 * 1000 \<longrightarrow>
           login blib' ''k'' (Some u5) ''a@b.co'' pw now =
             (Response 423 ''Account is temporarily locked due to too many failed login attempts. Please try again later.'', Some u5)"
    by blast
  have "login sample_bcrypt ''k'' (Some u5) ''a@b.co'' ''secret1'' 6000 =
          (Response 423 ''Account is temporarily locked due to too many failed login attempts. Please try again later.'', Some u5)"
    using h(7) by simp
  then show ?thesis using h(1-6) by auto
qed

text \<open>
  C3, at an account that exists and a password that is wrong. The response for an unknown
  email carries the message \<open>Invalid email or password\<close>, the response for a known email
  with a wrong password carries \<open>Incorrect Password!\<close>: the two differ.
\<close>

theorem login_reveals_known_email:
  "fst (login sample_bcrypt ''k'' None ''a@b.co'' ''wrong-password'' 1000) =
     Response 401 ''Invalid email or password''
   \<and> fst (login sample_bcrypt ''k'' (Some sample_user) ''a@b.co'' ''wrong-password'' 1000) =
     Response 401 ''Incorrect Password!''
   \<and> fst (login sample_bcrypt ''k'' None ''a@b.co'' ''wrong-password'' 1000) \<noteq>
     fst (login sample_bcrypt ''k'' (Some sample_user) ''a@b.co'' ''wrong-password'' 1000)"
  by (simp add: login_def sample_user_def sample_bcrypt_def isLocked_def)

text \<open>
  After the lock has run out, that is at a time strictly later than \<open>lockUntil\<close>, a wrong
  password restarts the counter at 1 without a lock and a right password clears both fields.
\<close>

lemma login_after_lock_expired:
  assumes "mail \<noteq> []" and "pw \<noteq> []" and "status u = Active"
    and "lockUntil u = Some t" and "t < now" and "loginAttempts u > 0"
  shows "bcrypt_compare blib pw (password u) = Inr False \<Longrightarrow>
           \<exists>u'. login blib secret (Some u) mail pw now = (Response 401 ''Incorrect Password!'', Some u')
              \<and> loginAttempts u' = 1 \<and> lockUntil u' = None"
    and "bcrypt_compare blib pw (password u) = Inr True \<Longrightarrow>
           \<exists>r u'. login blib secret (Some u) mail pw now = (r, Some u')
              \<and> loginAttempts u' = 0 \<and> lockUntil u' = None"
  using assms
  by (auto simp: login_def isLocked_def incLoginAttempts_def resetLoginAttempts_def Let_def
      split: sum.splits)

text \<open>
  C5, at the instant the lock runs out (\<open>now = lockUntil\<close>) and with a wrong password.
  The account no longer counts as locked, so the password is checked; the counter is not
  restarted but incremented to 6, and a new lock of two hours is stored.
\<close>

theorem login_at_lock_expiry_relocks:
  "login sample_bcrypt ''k'' (Some (sample_user\<lparr>loginAttempts := 5, lockUntil := Some 1000\<rparr>))
     ''a@b.co'' ''wrong-password'' 1000 =
     (Response 401 ''Incorrect Password!'',
      Some (sample_user\<lparr>loginAttempts := 6, lockUntil := Some 7201000\<rparr>))"
  by (simp add: login_def sample_user_def sample_bcrypt_def isLocked_def incLoginAttempts_def)

section \<open>Token scoping\<close>

lemma verifyToken_refresh_token:
  assumes "generateRefreshToken secret t0 ident = Inr rt"
  shows "verifyToken secret rt now =
           Inl (Error (if now div 1000 < t0 div 1000 + 7 * 24 * 60 * 60
                       then ''Invalid token'' else ''Token has expired''))"
  using assms
  by (auto simp: generateRefreshToken_def verifyToken_def jwt_verify_def jwt_sign_def
      split: if_splits)

lemma verifyRefreshToken_access_token:
  assumes "generateToken secret expiresIn t0 ident mail = Inr tok"
  shows "verifyRefreshToken secret tok now =
           Inl (Error (if now div 1000 < t0 div 1000 + expiresIn
                       then ''Invalid refresh token'' else ''Refresh token has expired''))"
  using assms
  by (auto simp: generateToken_def verifyRefreshToken_def verifyRefreshToken_try_def
      jwt_verify_def jwt_sign_def split: if_splits)

lemma verifyRefreshToken_type:
  assumes "verifyRefreshToken secret tok now = Inr decoded"
  shows "typeClaim decoded = Some ''refresh''"
  using assms
  by (auto simp: verifyRefreshToken_def verifyRefreshToken_try_def
      split: if_splits sum.splits)

text \<open>
  C6 as stated fails for a refresh token presented after its own expiry: the refresh token
  issued at time 0 expires after 604800 seconds, and access-token verification at that
  instant reports \<open>Token has expired\<close>, not \<open>Invalid token\<close>.
\<close>

theorem expired_refresh_token_not_reported_invalid:
  "generateRefreshToken ''k'' 0 ''u1'' = Inr sample_refresh_token
   \<and> verifyToken ''k'' sample_refresh_token 604800000 = Inl (Error ''Token has expired'')
   \<and> verifyToken ''k'' sample_refresh_token 604800000 \<noteq> Inl (Error ''Invalid token'')"
  by (simp add: generateRefreshToken_def jwt_sign_def sample_refresh_token_def verifyToken_def
      jwt_verify_def)

text \<open>
  C6, amended. Every refresh token issued by \<open>generateRefreshToken\<close> is rejected by
  access-token verification, and every access token issued by \<open>generateToken\<close> is rejected
  by refresh-token verification: with the token-invalid error when it is presented before its
  expiry, with the token-expired error from its expiry on. Refresh-token verification returns
  claims only when their \<open>type\<close> is \<open>refresh\<close>.
\<close>

theorem tokens_rejected_across_audiences:
  assumes "generateRefreshToken secret t0 ident = Inr rt"
    and "generateToken secret expiresIn t1 ident' mail = Inr tok"
  shows "verifyToken secret rt now =
           Inl (Error (if now div 1000 < t0 div 1000 + 7 * 24 * 60 * 60
                       then ''Invalid token'' else ''Token has expired''))
       \<and> verifyRefreshToken secret tok now =
           Inl (Error (if now div 1000 < t1 div 1000 + expiresIn
                       then ''Invalid refresh token'' else ''Refresh token has expired''))
       \<and> (\<forall>any decoded. verifyRefreshToken secret any now = Inr decoded \<longrightarrow>
             typeClaim decoded = Some ''refresh'')"
  using verifyToken_refresh_token [OF assms(1)] verifyRefreshToken_access_token [OF assms(2)]
    verifyRefreshToken_type
  by blast

theorem tokens_rejected_across_audiences_witness:
  "verifyToken ''k'' sample_refresh_token 1000 = Inl (Error ''Invalid token'')
   \<and> verifyRefreshToken ''k''
        (Signed \<lparr> userId = ''u1'', emailClaim = Some ''a@b.co'', typeClaim = None, iat = 0,
                  exp = 86400, iss = ''lenden-app'', aud = ''lenden-users'', signedWith = ''k'' \<rparr>)
        1000 = Inl (Error ''Invalid refresh token'')
   \<and> verifyRefreshToken ''k'' sample_refresh_token 1000 \<noteq> Inl (Error ''Invalid refresh token'')"
proof -
  have r: "generateRefreshToken ''k'' 0 ''u1'' = Inr sample_refresh_token"
    by (simp add: generateRefreshToken_def jwt_sign_def sample_refresh_token_def)
  have a: "generateToken ''k'' JWT_EXPIRE 0 ''u1'' ''a@b.co'' =
             Inr (Signed \<lparr> userId = ''u1'', emailClaim = Some ''a@b.co'', typeClaim = None,
                    iat = 0, exp = 86400, iss = ''lenden-app'', aud = ''lenden-users'',
                    signedWith = ''k'' \<rparr>)"
    by (simp add: generateToken_def jwt_sign_def JWT_EXPIRE_def)
  have "verifyRefreshToken ''k'' sample_refresh_token 1000 \<noteq> Inl (Error ''Invalid refresh token'')"
    by (simp add: verifyRefreshToken_def verifyRefreshToken_try_def jwt_verify_def
        sample_refresh_token_def)
  then show ?thesis
    using tokens_rejected_across_audiences [OF r a, of 1000] by (simp add: JWT_EXPIRE_def)
qed

section \<open>The pre-save hook\<close>

lemma encrypt_has_colon: "encrypt lib key iv text = Inr c \<Longrightarrow> CHR '':'' \<in> set c"
  by (auto simp: encrypt_def split: if_splits sum.splits)

text \<open>The hashing step of the hook touches neither the Aadhaar field nor the flags.\<close>

lemma pre_save_skips_encrypted:
  assumes "CHR '':'' \<in> set (aadhaarNumber u)"
  shows "aadhaarNumber (snd (pre_save blib rounds clib key salt iv u)) = aadhaarNumber u"
  using assms
  by (auto simp: pre_save_def isModified_def split: sum.splits)

lemma pre_save_skips_unflagged:
  assumes "\<not> isNew u" and "\<not> isModified u ''aadhaarNumber''"
  shows "aadhaarNumber (snd (pre_save blib rounds clib key salt iv u)) = aadhaarNumber u"
  using assms
  by (auto simp: pre_save_def isModified_def split: sum.splits)

lemma pre_save_flags:
  "isNew (snd (pre_save blib rounds clib key salt iv u)) = isNew u"
  "modifiedPaths (snd (pre_save blib rounds clib key salt iv u)) = modifiedPaths u"
  by (auto simp: pre_save_def isModified_def split: sum.splits)

lemma pre_save_success_encrypted:
  assumes "pre_save blib rounds clib key salt iv u = (None, u1)"
    and "isNew u \<or> isModified u ''aadhaarNumber''"
  shows "CHR '':'' \<in> set (aadhaarNumber u1)"
  using assms
  by (auto simp: pre_save_def isModified_def dest: encrypt_has_colon
      split: sum.splits if_splits)

text \<open>
  C10. The hook changes \<open>aadhaarNumber\<close> only when the stored value contains no \<open>:\<close>.
  After an application of the hook that succeeded, a second application (with any salt and
  IV of its own) leaves \<open>aadhaarNumber\<close> as the first one left it, both on the document
  as the hook left it and on the document with the flags cleared by the completed save.
\<close>

theorem pre_save_encrypts_once:
  assumes "pre_save blib rounds clib key salt1 iv1 u = (None, u1)"
  shows "(CHR '':'' \<in> set (aadhaarNumber u) \<longrightarrow> aadhaarNumber u1 = aadhaarNumber u)
       \<and> aadhaarNumber (snd (pre_save blib rounds clib key salt2 iv2 u1)) = aadhaarNumber u1
       \<and> aadhaarNumber (snd (pre_save blib rounds clib key salt2 iv2
            (u1\<lparr>isNew := False, modifiedPaths := []\<rparr>))) = aadhaarNumber u1"
proof (intro conjI impI)
  assume "CHR '':'' \<in> set (aadhaarNumber u)"
  from pre_save_skips_encrypted [OF this, of blib rounds clib key salt1 iv1] assms
  show "aadhaarNumber u1 = aadhaarNumber u" by simp
next
  have flags: "isNew u1 = isNew u" "modifiedPaths u1 = modifiedPaths u"
    using pre_save_flags [of blib rounds clib key salt1 iv1 u] assms by simp_all
  show "aadhaarNumber (snd (pre_save blib rounds clib key salt2 iv2 u1)) = aadhaarNumber u1"
  proof (cases "isNew u \<or> isModified u ''aadhaarNumber''")
    case True
    from pre_save_success_encrypted [OF assms True]
    show ?thesis by (rule pre_save_skips_encrypted)
  next
    case False
    then have "\<not> isNew u1" "\<not> isModified u1 ''aadhaarNumber''"
      using flags by (simp_all add: isModified_def)
    then show ?thesis by (rule pre_save_skips_unflagged)
  qed
next
  show "aadhaarNumber (snd (pre_save blib rounds clib key salt2 iv2
          (u1\<lparr>isNew := False, modifiedPaths := []\<rparr>))) = aadhaarNumber u1"
    using pre_save_skips_unflagged [of "u1\<lparr>isNew := False, modifiedPaths := []\<rparr>"
        blib rounds clib key salt2 iv2]
    by (simp add: isModified_def)
qed

theorem pre_save_encrypts_once_witness:
  "\<exists>u1. pre_save sample_bcrypt 12 sample_crypto sample_key ''salt1'' sample_iv
           (sample_user\<lparr>password := ''secret1'', isNew := True\<rparr>) = (None, u1)
     \<and> aadhaarNumber u1 \<noteq> ''123456789012''
     \<and> aadhaarNumber (snd (pre_save sample_bcrypt 12 sample_crypto sample_key ''salt2'' sample_iv2 u1))
         = aadhaarNumber u1"
proof -
  let ?u = "sample_user\<lparr>password := ''secret1'', isNew := True\<rparr>"
  have k: "length sample_key = 32" and i: "length sample_iv = 16"
    by (simp_all add: sample_key_def sample_iv_def)
  have e: "encrypt sample_crypto sample_key sample_iv ''123456789012'' =
             Inr (toHex sample_iv @ '':'' @
                  toHex (map (\<lambda>c. of_nat (of_char c) XOR hd sample_iv) ''123456789012'' @ [16]))"
    by (rule encrypt_blob [OF _ sample_cipher [OF k i]]) simp
  obtain u1 where u1: "pre_save sample_bcrypt 12 sample_crypto sample_key ''salt1'' sample_iv ?u
                         = (None, u1)"
      "CHR '':'' \<in> set (aadhaarNumber u1)"
    using e by (simp add: pre_save_def hashPassword_def sample_bcrypt_def sample_user_def
        del: map_append)
  have "aadhaarNumber u1 \<noteq> ''123456789012''"
    using u1(2) by auto
  then show ?thesis
    using pre_save_encrypts_once [OF u1(1), of "''salt2''" sample_iv2] u1(1) by blast
qed

end
